theory Spec2Isabelle
  imports Complex_Main
begin

section \<open>The SN73 micro-grid bot\<close>

text \<open>
  A shallow embedding of \<^verbatim>\<open>sn73_micro_grid_bot.py\<close> (class \<^verbatim>\<open>SN73MicroGridBot\<close>).

  Conventions of the embedding.
  \<^item> Python floats are read as exact real numbers: rounding is not modelled. Where the
    source divides, the division by zero that Python raises is a branch of the model.
  \<^item> Every call that leaves the process (the subtensor client, the wall clock,
    \<^verbatim>\<open>datetime.now()\<close>) is answered by an oracle of the record \<open>gateway\<close>,
    indexed by the number of calls of that kind made so far; the counters live in the
    record \<open>world\<close>, next to the bot's fields and the content of the state file.
  \<^item> A method that mutates \<^verbatim>\<open>self\<close> takes the world and returns the new world.
  \<^item> Console output is not modelled, apart from the four notices of the datatype
    \<open>notice\<close>, which tell which branch a cycle took.
  \<^item> Writing and reading the state file is taken to succeed (the handlers of
    \<^verbatim>\<open>save_state\<close> and \<^verbatim>\<open>load_state\<close> for I/O errors are not modelled).
\<close>

subsection \<open>Data\<close>

text \<open>A naive \<^verbatim>\<open>datetime\<close>, as microseconds since the epoch.\<close>

type_synonym datetime = nat

text \<open>
  The value under a timestamp key of a position dictionary: a \<^verbatim>\<open>datetime\<close> object, or
  (in the JSON file, and after a load that did not convert it) a string. The only
  strings that occur are those \<^verbatim>\<open>json.dump(..., default=str)\<close> writes, so the string
  \<^verbatim>\<open>str(d)\<close> is represented as \<open>IsoStr d\<close>, and \<^verbatim>\<open>datetime.fromisoformat\<close> reads
  it back as \<open>d\<close>.
\<close>

datatype stamp = DT datetime | IsoStr datetime

text \<open>
  A position dictionary. The last five keys are absent (\<open>None\<close>) until the position is
  sold.
\<close>

record position =
  pos_id :: int
  buy_price :: real
  sell_target_price :: real
  alpha_amount :: real
  tao_invested :: real
  created_timestamp :: stamp
  status :: string
  profit_percent :: real
  sell_price :: "real option"
  tao_received :: "real option"
  profit_tao :: "real option"
  profit_percent_actual :: "real option"
  sell_timestamp :: "stamp option"

text \<open>
  The configuration object. The attributes the source reads with \<^verbatim>\<open>getattr(..., default)\<close>
  or guards with \<^verbatim>\<open>hasattr\<close> are optional.
\<close>

record config =
  dca_amount :: real
  dca_interval_hours :: real
  max_investment :: real
  cap_tolerance :: real
  max_positions :: int
  profit_target_percent :: real
  min_balance :: real
  fee_reserve_enabled :: "bool option"
  auto_fee_reserve :: "real option"
  max_slippage_percent :: "real option"
  price_check_tolerance :: "real option"
  max_entry_price :: "real option"
  stop_loss_percent :: "real option"

text \<open>The fields \<^verbatim>\<open>__init__\<close> sets on the bot (wallet, client and flags apart).\<close>

record bot =
  total_invested :: real
  active_positions :: "position list"
  completed_trades :: "position list"
  position_counter :: int
  total_profit_realized :: real
  successful_sells :: int
  failed_sells :: int
  last_dca_time :: real
  start_time :: real

text \<open>
  What a call of the client does: it returns a value or raises. The class of the
  exception is carried along, although the source never looks at it.
\<close>

datatype exn = TransientError | Rejection | ZeroDivisionError

datatype 'a outcome = Returned 'a | Raised exn

text \<open>
  The oracles. \<open>all_subnets g k\<close> is the \<open>k\<close>-th answer of \<^verbatim>\<open>sub.all_subnets()\<close>, reduced
  to what the bot reads of it: the price of the subnet \<^verbatim>\<open>target_netuid\<close> if it is listed.
  \<open>add_stake g k a\<close> and \<open>unstake g k a\<close> answer the \<open>k\<close>-th call with amount \<open>a\<close>.
\<close>

record gateway =
  all_subnets :: "nat \<Rightarrow> real option outcome"
  get_balance :: "nat \<Rightarrow> real outcome"
  add_stake :: "nat \<Rightarrow> real \<Rightarrow> bool outcome"
  unstake :: "nat \<Rightarrow> real \<Rightarrow> bool outcome"
  time_time :: "nat \<Rightarrow> real"
  datetime_now :: "nat \<Rightarrow> datetime"

datatype notice = CapReached | MaxPositionsReached | NextDcaIn real | StopLossHit int

text \<open>
  The state file holds the dictionary \<^verbatim>\<open>state\<close> of \<^verbatim>\<open>save_state\<close>: the nine fields
  of the bot (timestamps as strings) and \<^verbatim>\<open>last_save_time\<close>.
\<close>

type_synonym state_json = "bot \<times> real"

record world =
  self :: bot
  state_file :: "state_json option"
  subnet_calls :: nat
  balance_calls :: nat
  stake_calls :: nat
  unstake_calls :: nat
  clock_reads :: nat
  now_reads :: nat
  console :: "notice list"

text \<open>\<^verbatim>\<open>getattr(self.config, name, default)\<close> on an optional attribute.\<close>

definition getattr :: "'a option \<Rightarrow> 'a \<Rightarrow> 'a" where
  "getattr attribute fallback = (case attribute of None \<Rightarrow> fallback | Some v \<Rightarrow> v)"

definition init_bot :: "real \<Rightarrow> bot" where
  "init_bot t =
     \<lparr>total_invested = 0, active_positions = [], completed_trades = [],
      position_counter = 0, total_profit_realized = 0, successful_sells = 0,
      failed_sells = 0, last_dca_time = 0, start_time = t\<rparr>"

definition read_clock :: "gateway \<Rightarrow> world \<Rightarrow> real \<times> world" where
  "read_clock g w = (time_time g (clock_reads w), w\<lparr>clock_reads := Suc (clock_reads w)\<rparr>)"

definition read_now :: "gateway \<Rightarrow> world \<Rightarrow> datetime \<times> world" where
  "read_now g w = (datetime_now g (now_reads w), w\<lparr>now_reads := Suc (now_reads w)\<rparr>)"

definition say :: "notice \<Rightarrow> world \<Rightarrow> world" where
  "say n w = w\<lparr>console := console w @ [n]\<rparr>"

subsection \<open>Gateway calls with retry\<close>

definition max_retries :: nat where
  "max_retries = 3"

text \<open>
  \<^verbatim>\<open>for attempt in range(max_retries)\<close>, by recursion on the attempts left. An attempt
  that raises is followed by the next one while \<^verbatim>\<open>attempt < max_retries - 1\<close>; the last
  one re-raises. A loop that runs out (no attempts at all) returns \<^verbatim>\<open>None\<close>.
\<close>

fun get_wallet_balance_from :: "gateway \<Rightarrow> nat \<Rightarrow> world \<Rightarrow> (exn + real option) \<times> world" where
  "get_wallet_balance_from g 0 w = (Inr None, w)"
| "get_wallet_balance_from g (Suc n) w =
     (let w' = w\<lparr>balance_calls := Suc (balance_calls w)\<rparr> in
      case get_balance g (balance_calls w) of
        Returned b \<Rightarrow> (Inr (Some b), w')
      | Raised e \<Rightarrow> if 0 < n then get_wallet_balance_from g n w' else (Inl e, w'))"

definition get_wallet_balance :: "gateway \<Rightarrow> world \<Rightarrow> (exn + real option) \<times> world" where
  "get_wallet_balance g w = get_wallet_balance_from g max_retries w"

fun get_subnet_info_from :: "gateway \<Rightarrow> nat \<Rightarrow> world \<Rightarrow> (exn + real option) \<times> world" where
  "get_subnet_info_from g 0 w = (Inr None, w)"
| "get_subnet_info_from g (Suc n) w =
     (let w' = w\<lparr>subnet_calls := Suc (subnet_calls w)\<rparr> in
      case all_subnets g (subnet_calls w) of
        Returned r \<Rightarrow> (Inr r, w')
      | Raised e \<Rightarrow> if 0 < n then get_subnet_info_from g n w' else (Inl e, w'))"

definition get_subnet_info :: "gateway \<Rightarrow> world \<Rightarrow> (exn + real option) \<times> world" where
  "get_subnet_info g w = get_subnet_info_from g max_retries w"

text \<open>
  \<^verbatim>\<open>stake_sn73\<close> and \<^verbatim>\<open>unstake_sn73\<close>: whatever the call returns is dropped and the
  method returns \<^verbatim>\<open>True\<close>; the last attempt that raises makes it return \<^verbatim>\<open>False\<close>.
\<close>

fun stake_sn73_from :: "gateway \<Rightarrow> nat \<Rightarrow> real \<Rightarrow> world \<Rightarrow> bool \<times> world" where
  "stake_sn73_from g 0 tao_amount w = (False, w)"
| "stake_sn73_from g (Suc n) tao_amount w =
     (let w' = w\<lparr>stake_calls := Suc (stake_calls w)\<rparr> in
      case add_stake g (stake_calls w) tao_amount of
        Returned result \<Rightarrow> (True, w')
      | Raised e \<Rightarrow> if 0 < n then stake_sn73_from g n tao_amount w' else (False, w'))"

definition stake_sn73 :: "gateway \<Rightarrow> real \<Rightarrow> world \<Rightarrow> bool \<times> world" where
  "stake_sn73 g tao_amount w = stake_sn73_from g max_retries tao_amount w"

fun unstake_sn73_from :: "gateway \<Rightarrow> nat \<Rightarrow> real \<Rightarrow> world \<Rightarrow> bool \<times> world" where
  "unstake_sn73_from g 0 amount w = (False, w)"
| "unstake_sn73_from g (Suc n) amount w =
     (let w' = w\<lparr>unstake_calls := Suc (unstake_calls w)\<rparr> in
      case unstake g (unstake_calls w) amount of
        Returned result \<Rightarrow> (True, w')
      | Raised e \<Rightarrow> if 0 < n then unstake_sn73_from g n amount w' else (False, w'))"

definition unstake_sn73 :: "gateway \<Rightarrow> real \<Rightarrow> world \<Rightarrow> bool \<times> world" where
  "unstake_sn73 g amount w = unstake_sn73_from g max_retries amount w"

subsection \<open>Gates\<close>

definition is_at_investment_cap :: "config \<Rightarrow> bot \<Rightarrow> bool" where
  "is_at_investment_cap cfg b =
     (let upper_limit = max_investment cfg + cap_tolerance cfg
      in total_invested b \<ge> upper_limit)"

definition can_resume_dca :: "config \<Rightarrow> bot \<Rightarrow> bool" where
  "can_resume_dca cfg b =
     (let lower_limit = max_investment cfg - cap_tolerance cfg
      in total_invested b < lower_limit)"

definition get_available_balance_for_trading :: "config \<Rightarrow> real \<Rightarrow> real" where
  "get_available_balance_for_trading cfg wallet_balance =
     (if getattr (fee_reserve_enabled cfg) True
      then (let fee_reserve = getattr (auto_fee_reserve cfg) (4 / 100)
            in max 0 (wallet_balance - fee_reserve))
      else max 0 (wallet_balance - min_balance cfg))"

definition is_time_for_dca :: "gateway \<Rightarrow> config \<Rightarrow> world \<Rightarrow> bool \<times> world" where
  "is_time_for_dca g cfg w =
     (case read_clock g w of (current_time, w') \<Rightarrow>
        (let dca_interval_seconds = dca_interval_hours cfg * 3600 in
         if last_dca_time (self w') = 0 then (True, w')
         else (let time_since_last_dca = current_time - last_dca_time (self w')
               in (time_since_last_dca \<ge> dca_interval_seconds, w'))))"

definition get_time_until_next_dca :: "gateway \<Rightarrow> config \<Rightarrow> world \<Rightarrow> real \<times> world" where
  "get_time_until_next_dca g cfg w =
     (if last_dca_time (self w) = 0 then (0, w)
      else (case read_clock g w of (current_time, w') \<Rightarrow>
        (let dca_interval_seconds = dca_interval_hours cfg * 3600;
             time_since_last = current_time - last_dca_time (self w');
             time_until_next = dca_interval_seconds - time_since_last
         in (max 0 (time_until_next / 60), w'))))"

subsection \<open>The state file\<close>

fun default_str :: "stamp \<Rightarrow> stamp" where
  "default_str (DT d) = IsoStr d"
| "default_str (IsoStr d) = IsoStr d"

definition dump_position :: "position \<Rightarrow> position" where
  "dump_position p =
     p\<lparr>created_timestamp := default_str (created_timestamp p),
       sell_timestamp := map_option default_str (sell_timestamp p)\<rparr>"

definition dump_bot :: "bot \<Rightarrow> bot" where
  "dump_bot b =
     b\<lparr>active_positions := map dump_position (active_positions b),
       completed_trades := map dump_position (completed_trades b)\<rparr>"

definition save_state :: "gateway \<Rightarrow> world \<Rightarrow> world" where
  "save_state g w =
     (case read_clock g w of (last_save_time, w') \<Rightarrow>
        w'\<lparr>state_file := Some (dump_bot (self w'), last_save_time)\<rparr>)"

fun fromisoformat_if_str :: "stamp \<Rightarrow> stamp" where
  "fromisoformat_if_str (IsoStr d) = DT d"
| "fromisoformat_if_str (DT d) = DT d"

definition load_active :: "position \<Rightarrow> position" where
  "load_active p = p\<lparr>created_timestamp := fromisoformat_if_str (created_timestamp p)\<rparr>"

definition load_trade :: "position \<Rightarrow> position" where
  "load_trade p =
     p\<lparr>created_timestamp := fromisoformat_if_str (created_timestamp p),
       sell_timestamp := map_option fromisoformat_if_str (sell_timestamp p)\<rparr>"

definition load_state :: "world \<Rightarrow> world" where
  "load_state w =
     (case state_file w of
        None \<Rightarrow> w
      | Some (state, last_save_time) \<Rightarrow>
          w\<lparr>self := (self w)
             \<lparr>total_invested := total_invested state,
              active_positions := map load_active (active_positions state),
              completed_trades := map load_trade (completed_trades state),
              position_counter := position_counter state,
              total_profit_realized := total_profit_realized state,
              successful_sells := successful_sells state,
              failed_sells := failed_sells state,
              last_dca_time := last_dca_time state\<rparr>\<rparr>)"

subsection \<open>The slippage check\<close>

datatype slippage_reason =
  NoCurrentPrice | SlippageTooHigh | PriceIncreased | PriceDecreased | SlippageError

definition check_price_slippage ::
  "gateway \<Rightarrow> config \<Rightarrow> real \<Rightarrow> string \<Rightarrow> world \<Rightarrow> (slippage_reason + real) \<times> world" where
  "check_price_slippage g cfg expected_price trade_type w =
     (case get_subnet_info g w of
        (Inl e, w') \<Rightarrow> (Inl SlippageError, w')
      | (Inr None, w') \<Rightarrow> (Inl NoCurrentPrice, w')
      | (Inr (Some current_price), w') \<Rightarrow>
          if expected_price = 0 then (Inl SlippageError, w')
          else
            (let slippage_percent = \<bar>(current_price - expected_price) / expected_price\<bar> * 100;
                 max_slippage = getattr (max_slippage_percent cfg) 2
             in if slippage_percent > max_slippage then (Inl SlippageTooHigh, w')
                else
                  (let price_tolerance = getattr (price_check_tolerance cfg) 1
                   in if trade_type = ''buy''
                           \<and> current_price > expected_price * (1 + price_tolerance / 100)
                      then (Inl PriceIncreased, w')
                      else if trade_type = ''sell''
                           \<and> current_price < expected_price * (1 - price_tolerance / 100)
                      then (Inl PriceDecreased, w')
                      else (Inr current_price, w'))))"

subsection \<open>Opening a position\<close>

definition new_position :: "config \<Rightarrow> int \<Rightarrow> real \<Rightarrow> real \<Rightarrow> datetime \<Rightarrow> position" where
  "new_position cfg n current_price alpha now =
     \<lparr>pos_id = n,
      buy_price = current_price,
      sell_target_price = current_price * (1 + profit_target_percent cfg / 100),
      alpha_amount = alpha,
      tao_invested = dca_amount cfg,
      created_timestamp = DT now,
      status = ''active'',
      profit_percent = profit_target_percent cfg,
      sell_price = None, tao_received = None, profit_tao = None,
      profit_percent_actual = None, sell_timestamp = None\<rparr>"

text \<open>The branch \<^verbatim>\<open>if success:\<close> of \<^verbatim>\<open>execute_dca_purchase\<close>.\<close>

definition record_purchase :: "gateway \<Rightarrow> config \<Rightarrow> real \<Rightarrow> real \<Rightarrow> world \<Rightarrow> world" where
  "record_purchase g cfg current_price alpha w =
     (case read_clock g w of (t, w1) \<Rightarrow>
      case read_now g w1 of (now, w2) \<Rightarrow>
        (let b = self w2;
             counter = position_counter b + 1;
             position = new_position cfg counter current_price alpha now
         in save_state g
              (w2\<lparr>self := b\<lparr>last_dca_time := t,
                              position_counter := counter,
                              active_positions := active_positions b @ [position],
                              total_invested := total_invested b + dca_amount cfg\<rparr>\<rparr>)))"

definition execute_dca_purchase :: "gateway \<Rightarrow> config \<Rightarrow> world \<Rightarrow> bool \<times> world" where
  "execute_dca_purchase g cfg w =
     (case get_subnet_info g w of
        (Inl e, w1) \<Rightarrow> (False, w1)
      | (Inr None, w1) \<Rightarrow> (False, w1)
      | (Inr (Some current_price), w1) \<Rightarrow>
          if (case max_entry_price cfg of None \<Rightarrow> False | Some m \<Rightarrow> current_price > m)
          then (True, w1)
          else
            (case get_wallet_balance g w1 of
               (Inl e, w2) \<Rightarrow> (False, w2)
             | (Inr None, w2) \<Rightarrow> (False, w2)
             | (Inr (Some wallet_balance), w2) \<Rightarrow>
                 if get_available_balance_for_trading cfg wallet_balance < dca_amount cfg
                 then (False, w2)
                 else if current_price = 0 then (False, w2)
                 else
                   (case check_price_slippage g cfg current_price ''buy'' w2 of
                      (Inl reason, w3) \<Rightarrow> (True, w3)
                    | (Inr fresh_price, w3) \<Rightarrow>
                        if fresh_price = 0 then (False, w3)
                        else
                          (let alpha = dca_amount cfg / fresh_price in
                           case stake_sn73 g (dca_amount cfg) w3 of
                             (True, w4) \<Rightarrow> (True, record_purchase g cfg fresh_price alpha w4)
                           | (False, w4) \<Rightarrow> (False, w4)))))"

subsection \<open>Selling\<close>

text \<open>
  The branch \<^verbatim>\<open>if sell_success:\<close>. \<open>mark_sold\<close> updates the position at index \<open>i\<close> of
  the active list in place, appends it to the completed trades and moves the totals;
  \<open>record_sale\<close> is that followed by \<^verbatim>\<open>self.save_state()\<close>. The position stays in the
  active list until the loop is over.
\<close>

definition sold_position :: "position \<Rightarrow> real \<Rightarrow> datetime \<Rightarrow> position" where
  "sold_position p current_price now =
     (let received = alpha_amount p * current_price;
          profit = received - tao_invested p;
          percent = (profit / tao_invested p) * 100
      in p\<lparr>status := ''sold'',
            sell_price := Some current_price,
            tao_received := Some received,
            profit_tao := Some profit,
            profit_percent_actual := Some percent,
            sell_timestamp := Some (DT now)\<rparr>)"

definition mark_sold :: "gateway \<Rightarrow> nat \<Rightarrow> position \<Rightarrow> real \<Rightarrow> world \<Rightarrow> position \<times> world" where
  "mark_sold g i p current_price w =
     (case read_now g w of (now, w1) \<Rightarrow>
        (let b = self w1;
             p' = sold_position p current_price now
         in (p', w1\<lparr>self := b\<lparr>active_positions := (active_positions b)[i := p'],
                              completed_trades := completed_trades b @ [p'],
                              total_profit_realized :=
                                total_profit_realized b
                                  + (alpha_amount p * current_price - tao_invested p),
                              successful_sells := successful_sells b + 1,
                              total_invested := total_invested b - tao_invested p\<rparr>\<rparr>)))"

definition record_sale :: "gateway \<Rightarrow> nat \<Rightarrow> position \<Rightarrow> real \<Rightarrow> world \<Rightarrow> position \<times> world" where
  "record_sale g i p current_price w =
     (case mark_sold g i p current_price w of (p', w') \<Rightarrow> (p', save_state g w'))"

text \<open>
  The loop \<^verbatim>\<open>for position in self.active_positions\<close>: \<open>ps\<close> are the positions still to
  visit, the first of them at index \<open>i\<close> of the list; \<open>current_price\<close> and
  \<open>positions_to_remove\<close> are the loop's variables. \<open>Inl\<close> is an exception that leaves the
  loop (the division by a zero \<^verbatim>\<open>tao_invested\<close>).
\<close>

fun sell_loop ::
  "gateway \<Rightarrow> config \<Rightarrow> position list \<Rightarrow> nat \<Rightarrow> real \<Rightarrow> position list \<Rightarrow> world
     \<Rightarrow> (exn + position list) \<times> world" where
  "sell_loop g cfg [] i current_price positions_to_remove w = (Inr positions_to_remove, w)"
| "sell_loop g cfg (p # ps) i current_price positions_to_remove w =
     (if status p \<noteq> ''active'' then sell_loop g cfg ps (Suc i) current_price positions_to_remove w
      else if current_price \<ge> sell_target_price p then
        (case check_price_slippage g cfg current_price ''sell'' w of
           (Inl reason, w1) \<Rightarrow> sell_loop g cfg ps (Suc i) current_price positions_to_remove w1
         | (Inr fresh_price, w1) \<Rightarrow>
             (case unstake_sn73 g (alpha_amount p) w1 of
                (True, w2) \<Rightarrow>
                  if tao_invested p = 0 then (Inl ZeroDivisionError, w2)
                  else
                    (case record_sale g i p fresh_price w2 of (p', w3) \<Rightarrow>
                       sell_loop g cfg ps (Suc i) fresh_price (positions_to_remove @ [p']) w3)
              | (False, w2) \<Rightarrow>
                  sell_loop g cfg ps (Suc i) fresh_price positions_to_remove
                    (w2\<lparr>self := (self w2)\<lparr>failed_sells := failed_sells (self w2) + 1\<rparr>\<rparr>)))
      else
        (case stop_loss_percent cfg of
           None \<Rightarrow> sell_loop g cfg ps (Suc i) current_price positions_to_remove w
         | Some stop_loss \<Rightarrow>
             if stop_loss > 0 then
               (let stop_loss_price = buy_price p * (1 - \<bar>stop_loss\<bar> / 100)
                in if current_price \<le> stop_loss_price
                   then sell_loop g cfg ps (Suc i) current_price positions_to_remove
                          (say (StopLossHit (pos_id p)) w)
                   else sell_loop g cfg ps (Suc i) current_price positions_to_remove w)
             else sell_loop g cfg ps (Suc i) current_price positions_to_remove w))"

text \<open>\<^verbatim>\<open>list.remove\<close> takes out the first element equal to its argument, as \<open>remove1\<close> does.\<close>

definition remove_sold :: "position list \<Rightarrow> world \<Rightarrow> world" where
  "remove_sold positions_to_remove w =
     w\<lparr>self := (self w)\<lparr>active_positions :=
                           fold remove1 positions_to_remove (active_positions (self w))\<rparr>\<rparr>"

definition check_and_execute_sells :: "gateway \<Rightarrow> config \<Rightarrow> world \<Rightarrow> world" where
  "check_and_execute_sells g cfg w =
     (if active_positions (self w) = [] then w
      else
        (case get_subnet_info g w of
           (Inl e, w1) \<Rightarrow> w1
         | (Inr None, w1) \<Rightarrow> w1
         | (Inr (Some current_price), w1) \<Rightarrow>
             (case sell_loop g cfg (active_positions (self w1)) 0 current_price [] w1 of
                (Inl e, w2) \<Rightarrow> w2
              | (Inr positions_to_remove, w2) \<Rightarrow> remove_sold positions_to_remove w2)))"

subsection \<open>The cycle\<close>

text \<open>
  \<^verbatim>\<open>print_status\<close> changes nothing of the bot; it divides by \<^verbatim>\<open>max_investment\<close> and
  then asks for the wallet balance. An exception of either is caught by the cycle.
\<close>

definition print_status :: "gateway \<Rightarrow> config \<Rightarrow> world \<Rightarrow> world" where
  "print_status g cfg w =
     (if max_investment cfg = 0 then w else snd (get_wallet_balance g w))"

text \<open>Phase 1 of \<^verbatim>\<open>micro_grid_cycle\<close>.\<close>

definition dca_phase :: "gateway \<Rightarrow> config \<Rightarrow> world \<Rightarrow> world" where
  "dca_phase g cfg w =
     (if \<not> is_at_investment_cap cfg (self w) then
        (if int (length (active_positions (self w))) < max_positions cfg then
           (case is_time_for_dca g cfg w of
              (True, w1) \<Rightarrow> snd (execute_dca_purchase g cfg w1)
            | (False, w1) \<Rightarrow>
                (case get_time_until_next_dca g cfg w1 of
                   (time_until_next, w2) \<Rightarrow> say (NextDcaIn time_until_next) w2))
         else say MaxPositionsReached w)
      else say CapReached w)"

definition micro_grid_cycle :: "gateway \<Rightarrow> config \<Rightarrow> world \<Rightarrow> world" where
  "micro_grid_cycle g cfg w =
     print_status g cfg (check_and_execute_sells g cfg (dca_phase g cfg w))"

text \<open>
  A run of the program: cycles of the main loop, and restarts of the process
  (\<^verbatim>\<open>__init__\<close>, then \<^verbatim>\<open>initialize\<close>, which loads the state file).
\<close>

definition restart :: "gateway \<Rightarrow> world \<Rightarrow> world" where
  "restart g w =
     (case read_clock g w of (t, w') \<Rightarrow> load_state (w'\<lparr>self := init_bot t\<rparr>))"

datatype event = Cycle | Restart

fun run :: "gateway \<Rightarrow> config \<Rightarrow> event list \<Rightarrow> world \<Rightarrow> world" where
  "run g cfg [] w = w"
| "run g cfg (Cycle # es) w = run g cfg es (micro_grid_cycle g cfg w)"
| "run g cfg (Restart # es) w = run g cfg es (restart g w)"

definition fresh_world :: "real \<Rightarrow> world" where
  "fresh_world t =
     \<lparr>self = init_bot t, state_file = None, subnet_calls = 0, balance_calls = 0,
      stake_calls = 0, unstake_calls = 0, clock_reads = 0, now_reads = 0, console = []\<rparr>"

subsection \<open>Scenarios\<close>

text \<open>
  The configuration of the module's docstring: 0.05 TAO every 12 hours, 15 percent
  profit target, a cap of 5.0 TAO, at most 100 positions; the tolerance around the cap
  is 0.1 TAO, and every optional attribute is left out.
\<close>

definition sn73_config :: config where
  "sn73_config =
     \<lparr>dca_amount = 5 / 100, dca_interval_hours = 12, max_investment = 5,
      cap_tolerance = 1 / 10, max_positions = 100, profit_target_percent = 15,
      min_balance = 0, fee_reserve_enabled = None, auto_fee_reserve = None,
      max_slippage_percent = None, price_check_tolerance = None,
      max_entry_price = None, stop_loss_percent = None\<rparr>"

text \<open>
  A network that always answers: the \<open>k\<close>-th price query returns \<open>price k\<close>, the wallet
  holds 10 TAO, and every stake and unstake call returns. The clock advances by one
  second at each reading.
\<close>

definition quoting :: "(nat \<Rightarrow> real) \<Rightarrow> gateway" where
  "quoting price =
     \<lparr>all_subnets = (\<lambda>k. Returned (Some (price k))),
      get_balance = (\<lambda>k. Returned 10),
      add_stake = (\<lambda>k a. Returned True),
      unstake = (\<lambda>k a. Returned True),
      time_time = (\<lambda>k. 1000 + real k),
      datetime_now = (\<lambda>k. k)\<rparr>"

text \<open>The price is 1.0 for the first three queries (the first cycle) and 1.16 afterwards.\<close>

definition scenario_gateway :: gateway where
  "scenario_gateway = quoting (\<lambda>k. if k < 3 then 1 else 116 / 100)"

text \<open>The same configuration with a stop-loss of 10 percent.\<close>

definition stop_loss_config :: config where
  "stop_loss_config = sn73_config\<lparr>stop_loss_percent := Some 10\<rparr>"

text \<open>The price is 1.0 for the purchase of the first cycle and 0.8 from its sell scan on.\<close>

definition falling_gateway :: gateway where
  "falling_gateway = quoting (\<lambda>k. if k < 2 then 1 else 8 / 10)"

text \<open>
  A configuration with a cap of 1.0 TAO and a tolerance of 0.5 TAO, so that the upper
  limit is 1.5 and the lower limit 0.5; purchases of 0.5 TAO with no waiting time, and a
  profit target of 25 percent.
\<close>

definition narrow_config :: config where
  "narrow_config =
     \<lparr>dca_amount = 1 / 2, dca_interval_hours = 0, max_investment = 1,
      cap_tolerance = 1 / 2, max_positions = 100, profit_target_percent = 25,
      min_balance = 0, fee_reserve_enabled = None, auto_fee_reserve = None,
      max_slippage_percent = None, price_check_tolerance = None,
      max_entry_price = None, stop_loss_percent = None\<rparr>"

text \<open>
  The price is 4, then 2, then 1 during the first three cycles (three queries each), and
  1.5 afterwards.
\<close>

definition stepping_gateway :: gateway where
  "stepping_gateway =
     quoting (\<lambda>k. if k < 3 then 4 else if k < 6 then 2 else if k < 9 then 1 else 3 / 2)"



text \<open>The network of the scenario, except that every \<^verbatim>\<open>unstake\<close> call raises.\<close>

definition stuck_gateway :: gateway where
  "stuck_gateway = scenario_gateway\<lparr>unstake := (\<lambda>k a. Raised TransientError)\<rparr>"

text \<open>
  The world of the scenario at the moment its sale is saved: position 1, opened in the
  first cycle, has just been marked sold at 1.16.
\<close>

definition scenario_sale :: world where
  "scenario_sale =
     (let w = run scenario_gateway sn73_config [Cycle] (fresh_world 0)
      in snd (mark_sold scenario_gateway 0 (hd (active_positions (self w))) (116 / 100) w))"

subsection \<open>Predicates used in the properties\<close>

text \<open>Two worlds with the same bot and the same state file.\<close>

definition same_ledger :: "world \<Rightarrow> world \<Rightarrow> bool" where
  "same_ledger w w' = (self w' = self w \<and> state_file w' = state_file w)"

text \<open>
  The capital bound in the positions of a list whose status is \<^verbatim>\<open>"active"\<close>, and the
  bot's books: the running total equals that capital.
\<close>

definition active_capital :: "position list \<Rightarrow> real" where
  "active_capital ps = sum_list (map tao_invested (filter (\<lambda>p. status p = ''active'') ps))"

definition books_balance :: "bot \<Rightarrow> bool" where
  "books_balance b = (total_invested b = active_capital (active_positions b))"

text \<open>The books balance in memory and in the state file, if there is one.\<close>

definition ledger_consistent :: "world \<Rightarrow> bool" where
  "ledger_consistent w =
     (books_balance (self w)
      \<and> (case state_file w of None \<Rightarrow> True | Some (state, t) \<Rightarrow> books_balance state))"


text \<open>The state file holds the snapshot of the bot as it is in memory.\<close>

definition persisted :: "world \<Rightarrow> bool" where
  "persisted w =
     (case state_file w of None \<Rightarrow> False | Some (state, t) \<Rightarrow> state = dump_bot (self w))"

text \<open>
  The state file agrees with the bot in memory on the invested total, the completed
  trades, the position counter, the realized profit, the count of successful sales and
  the time of the last purchase. An absent file counts as the snapshot of a bot that
  has done nothing, which is what a start without a file gives.
\<close>

definition durable :: "world \<Rightarrow> bool" where
  "durable w =
     (let b = self w;
          state = (case state_file w of None \<Rightarrow> init_bot 0 | Some (state, t) \<Rightarrow> state)
      in total_invested state = total_invested b
         \<and> completed_trades state = map dump_position (completed_trades b)
         \<and> position_counter state = position_counter b
         \<and> total_profit_realized state = total_profit_realized b
         \<and> successful_sells state = successful_sells b
         \<and> last_dca_time state = last_dca_time b)"

text \<open>
  The ids of the positions a cycle opens (those phase 1 appends to the active list), and
  the ids opened along a run, in order.
\<close>

definition opened_ids :: "gateway \<Rightarrow> config \<Rightarrow> world \<Rightarrow> int list" where
  "opened_ids g cfg w =
     map pos_id (drop (length (active_positions (self w)))
                      (active_positions (self (dca_phase g cfg w))))"

fun ids_assigned :: "gateway \<Rightarrow> config \<Rightarrow> event list \<Rightarrow> world \<Rightarrow> int list" where
  "ids_assigned g cfg [] w = []"
| "ids_assigned g cfg (Cycle # es) w =
     opened_ids g cfg w @ ids_assigned g cfg es (micro_grid_cycle g cfg w)"
| "ids_assigned g cfg (Restart # es) w = ids_assigned g cfg es (restart g w)"

text \<open>
  A bot in which no string stands for a timestamp, and no position of the active list
  carries a \<^verbatim>\<open>sell_timestamp\<close>.
\<close>

definition is_datetime :: "stamp \<Rightarrow> bool" where
  "is_datetime s = (case s of DT d \<Rightarrow> True | IsoStr d \<Rightarrow> False)"

definition settled :: "bot \<Rightarrow> bool" where
  "settled b =
     (list_all (\<lambda>p. is_datetime (created_timestamp p) \<and> sell_timestamp p = None)
        (active_positions b)
      \<and> list_all (\<lambda>p. is_datetime (created_timestamp p)
                      \<and> (case sell_timestamp p of None \<Rightarrow> True | Some s \<Rightarrow> is_datetime s))
          (completed_trades b))"

section \<open>Properties\<close>

subsection \<open>Evaluation\<close>

lemma max_retries_Suc: "max_retries = Suc (Suc (Suc 0))"
  by (simp add: max_retries_def numeral_3_eq_3)

lemmas gateway_calls = get_subnet_info_def get_wallet_balance_def stake_sn73_def
  unstake_sn73_def max_retries_Suc read_clock_def read_now_def say_def

lemmas bot_methods = is_at_investment_cap_def can_resume_dca_def
  get_available_balance_for_trading_def getattr_def
  is_time_for_dca_def get_time_until_next_dca_def save_state_def dump_bot_def dump_position_def
  check_price_slippage_def new_position_def record_purchase_def execute_dca_purchase_def
  sold_position_def mark_sold_def record_sale_def remove_sold_def check_and_execute_sells_def
  print_status_def dca_phase_def micro_grid_cycle_def fresh_world_def init_bot_def Let_def

subsection \<open>What the gateway calls leave alone\<close>

text \<open>
  A call of the client, with its retries, only advances its own call counter: the bot's
  fields and the state file stay as they are.
\<close>

lemma same_ledger_refl [simp]: "same_ledger w w"
  by (simp add: same_ledger_def)

lemma same_ledger_trans: "same_ledger w w1 \<Longrightarrow> same_ledger w1 w2 \<Longrightarrow> same_ledger w w2"
  by (simp add: same_ledger_def)

lemma get_subnet_info_from_frame:
  "\<exists>k. snd (get_subnet_info_from g n w) = w\<lparr>subnet_calls := k\<rparr>"
proof (induction n arbitrary: w)
  case 0
  have "w = w\<lparr>subnet_calls := subnet_calls w\<rparr>" by simp
  then show ?case by (metis get_subnet_info_from.simps(1) snd_conv)
next
  case (Suc n)
  obtain k where k: "snd (get_subnet_info_from g n (w\<lparr>subnet_calls := Suc (subnet_calls w)\<rparr>))
      = w\<lparr>subnet_calls := k\<rparr>"
    using Suc [of "w\<lparr>subnet_calls := Suc (subnet_calls w)\<rparr>"] by auto
  show ?case
    by (cases "all_subnets g (subnet_calls w)") (auto simp: Let_def k)
qed

lemma get_wallet_balance_from_frame:
  "\<exists>k. snd (get_wallet_balance_from g n w) = w\<lparr>balance_calls := k\<rparr>"
proof (induction n arbitrary: w)
  case 0
  have "w = w\<lparr>balance_calls := balance_calls w\<rparr>" by simp
  then show ?case by (metis get_wallet_balance_from.simps(1) snd_conv)
next
  case (Suc n)
  obtain k where k: "snd (get_wallet_balance_from g n (w\<lparr>balance_calls := Suc (balance_calls w)\<rparr>))
      = w\<lparr>balance_calls := k\<rparr>"
    using Suc [of "w\<lparr>balance_calls := Suc (balance_calls w)\<rparr>"] by auto
  show ?case
    by (cases "get_balance g (balance_calls w)") (auto simp: Let_def k)
qed

lemma stake_sn73_from_frame:
  "\<exists>k. snd (stake_sn73_from g n a w) = w\<lparr>stake_calls := k\<rparr>"
proof (induction n arbitrary: w)
  case 0
  have "w = w\<lparr>stake_calls := stake_calls w\<rparr>" by simp
  then show ?case by (metis stake_sn73_from.simps(1) snd_conv)
next
  case (Suc n)
  obtain k where k: "snd (stake_sn73_from g n a (w\<lparr>stake_calls := Suc (stake_calls w)\<rparr>))
      = w\<lparr>stake_calls := k\<rparr>"
    using Suc [of "w\<lparr>stake_calls := Suc (stake_calls w)\<rparr>"] by auto
  show ?case
    by (cases "add_stake g (stake_calls w) a") (auto simp: Let_def k)
qed

lemma unstake_sn73_from_frame:
  "\<exists>k. snd (unstake_sn73_from g n a w) = w\<lparr>unstake_calls := k\<rparr>"
proof (induction n arbitrary: w)
  case 0
  have "w = w\<lparr>unstake_calls := unstake_calls w\<rparr>" by simp
  then show ?case by (metis unstake_sn73_from.simps(1) snd_conv)
next
  case (Suc n)
  obtain k where k: "snd (unstake_sn73_from g n a (w\<lparr>unstake_calls := Suc (unstake_calls w)\<rparr>))
      = w\<lparr>unstake_calls := k\<rparr>"
    using Suc [of "w\<lparr>unstake_calls := Suc (unstake_calls w)\<rparr>"] by auto
  show ?case
    by (cases "unstake g (unstake_calls w) a") (auto simp: Let_def k)
qed

lemma get_subnet_info_frame: "\<exists>k. snd (get_subnet_info g w) = w\<lparr>subnet_calls := k\<rparr>"
  by (simp add: get_subnet_info_def get_subnet_info_from_frame)

lemma get_wallet_balance_frame: "\<exists>k. snd (get_wallet_balance g w) = w\<lparr>balance_calls := k\<rparr>"
  by (simp add: get_wallet_balance_def get_wallet_balance_from_frame)

lemma stake_sn73_frame: "\<exists>k. snd (stake_sn73 g a w) = w\<lparr>stake_calls := k\<rparr>"
  by (simp add: stake_sn73_def stake_sn73_from_frame)

lemma unstake_sn73_frame: "\<exists>k. snd (unstake_sn73 g a w) = w\<lparr>unstake_calls := k\<rparr>"
  by (simp add: unstake_sn73_def unstake_sn73_from_frame)

lemma check_price_slippage_frame:
  "\<exists>k. snd (check_price_slippage g cfg p tt w) = w\<lparr>subnet_calls := k\<rparr>"
proof -
  obtain k where k: "snd (get_subnet_info g w) = w\<lparr>subnet_calls := k\<rparr>"
    using get_subnet_info_frame by blast
  obtain r where r: "get_subnet_info g w = (r, w\<lparr>subnet_calls := k\<rparr>)"
    using k by (cases "get_subnet_info g w") auto
  show ?thesis
    by (auto simp: check_price_slippage_def r Let_def split: sum.splits option.splits)
qed


lemma quiet_get_subnet_info:
  assumes "get_subnet_info g w = (r, w')"
  shows "same_ledger w w'" and "stake_calls w' = stake_calls w"
  using get_subnet_info_frame [of g w] assms by (auto simp: same_ledger_def)

lemma quiet_get_wallet_balance:
  assumes "get_wallet_balance g w = (r, w')"
  shows "same_ledger w w'" and "stake_calls w' = stake_calls w"
  using get_wallet_balance_frame [of g w] assms by (auto simp: same_ledger_def)

lemma quiet_check_price_slippage:
  assumes "check_price_slippage g cfg p tt w = (r, w')"
  shows "same_ledger w w'" and "stake_calls w' = stake_calls w"
  using check_price_slippage_frame [of g cfg p tt w] assms by (auto simp: same_ledger_def)

lemma quiet_stake_sn73:
  assumes "stake_sn73 g a w = (r, w')"
  shows "same_ledger w w'"
  using stake_sn73_frame [of g a w] assms by (auto simp: same_ledger_def)

lemma quiet_unstake_sn73:
  assumes "unstake_sn73 g a w = (r, w')"
  shows "same_ledger w w'"
  using unstake_sn73_frame [of g a w] assms by (auto simp: same_ledger_def)

lemma quiet_read_clock: "same_ledger w (snd (read_clock g w))"
  by (simp add: read_clock_def same_ledger_def)

lemma quiet_say: "same_ledger w (say n w)"
  by (simp add: say_def same_ledger_def)

text \<open>What a purchase attempt does to the bot and the file.\<close>

lemma execute_dca_purchase_cases:
  "same_ledger w (snd (execute_dca_purchase g cfg w))
   \<or> (\<exists>w3 price. same_ledger w w3 \<and> stake_calls w3 = stake_calls w
         \<and> fst (stake_sn73 g (dca_amount cfg) w3)
         \<and> snd (execute_dca_purchase g cfg w)
             = record_purchase g cfg price (dca_amount cfg / price)
                 (snd (stake_sn73 g (dca_amount cfg) w3)))"
proof -
  obtain r1 w1 where e1: "get_subnet_info g w = (r1, w1)" by fastforce
  note q1 = quiet_get_subnet_info [OF e1]
  obtain r2 w2 where e2: "get_wallet_balance g w1 = (r2, w2)" by fastforce
  note q2 = quiet_get_wallet_balance [OF e2]
  have l2: "same_ledger w w2" using q1 q2 by (simp add: same_ledger_def)
  show ?thesis
  proof (cases r1)
    case (Inl e)
    then show ?thesis using e1 q1 by (simp add: execute_dca_purchase_def)
  next
    case (Inr quote)
    show ?thesis
    proof (cases quote)
      case None
      then show ?thesis using Inr e1 q1 by (simp add: execute_dca_purchase_def)
    next
      case (Some current_price)
      obtain r3 w3 where e3: "check_price_slippage g cfg current_price ''buy'' w2 = (r3, w3)"
        by fastforce
      note q3 = quiet_check_price_slippage [OF e3]
      have l3: "same_ledger w w3" "stake_calls w3 = stake_calls w"
        using q1 q2 q3 by (simp_all add: same_ledger_def)
      obtain ok w4 where e4: "stake_sn73 g (dca_amount cfg) w3 = (ok, w4)" by fastforce
      have l4: "same_ledger w w4"
        using l3 quiet_stake_sn73 [OF e4] by (simp add: same_ledger_def)
      have bought: ?thesis
        if "snd (execute_dca_purchase g cfg w)
              = record_purchase g cfg price (dca_amount cfg / price) w4" and ok for price
        using that l3 e4 by (intro disjI2 exI [of _ w3] exI [of _ price]) simp
      show ?thesis
        using Some Inr e1 e2 e3 e4 q1 l2 l3 l4 bought
        by (cases r2; cases r3; cases ok)
           (auto simp: execute_dca_purchase_def split: option.splits)
    qed
  qed
qed

lemma self_record_purchase:
  "self (record_purchase g cfg price alpha w) =
     (self w)\<lparr>last_dca_time := time_time g (clock_reads w),
               position_counter := position_counter (self w) + 1,
               active_positions := active_positions (self w)
                  @ [new_position cfg (position_counter (self w) + 1) price alpha
                       (datetime_now g (now_reads w))],
               total_invested := total_invested (self w) + dca_amount cfg\<rparr>"
  by (simp add: record_purchase_def read_clock_def read_now_def save_state_def Let_def)

lemma state_file_record_purchase:
  "state_file (record_purchase g cfg price alpha w) =
     Some (dump_bot (self (record_purchase g cfg price alpha w)),
           time_time g (Suc (clock_reads w)))"
  by (simp add: record_purchase_def read_clock_def read_now_def save_state_def Let_def)

subsection \<open>The steps that change the ledger\<close>

lemma status_sold_position: "status (sold_position p q n) = ''sold''"
  by (simp add: sold_position_def Let_def)

lemma fst_record_sale:
  "fst (record_sale g i p q w) = sold_position p q (datetime_now g (now_reads w))"
  by (simp add: record_sale_def mark_sold_def read_now_def Let_def)

lemma self_record_sale:
  "self (snd (record_sale g i p q w)) =
     (self w)\<lparr>active_positions :=
                 (active_positions (self w))[i := sold_position p q (datetime_now g (now_reads w))],
               completed_trades :=
                 completed_trades (self w) @ [sold_position p q (datetime_now g (now_reads w))],
               total_profit_realized :=
                 total_profit_realized (self w) + (alpha_amount p * q - tao_invested p),
               successful_sells := successful_sells (self w) + 1,
               total_invested := total_invested (self w) - tao_invested p\<rparr>"
  by (simp add: record_sale_def mark_sold_def read_now_def read_clock_def save_state_def Let_def)

lemma state_file_record_sale:
  "state_file (snd (record_sale g i p q w)) =
     Some (dump_bot (self (snd (record_sale g i p q w))), time_time g (clock_reads w))"
  by (simp add: record_sale_def mark_sold_def read_now_def read_clock_def save_state_def Let_def)

lemma sell_loop_rule:
  fixes P :: "world \<Rightarrow> bool"
  assumes frame: "\<And>w w'. P w \<Longrightarrow> same_ledger w w' \<Longrightarrow> P w'"
    and fail: "\<And>w. P w \<Longrightarrow> P (w\<lparr>self := (self w)\<lparr>failed_sells := failed_sells (self w) + 1\<rparr>\<rparr>)"
    and sale: "\<And>w i p q. P w \<Longrightarrow> i < length (active_positions (self w))
                 \<Longrightarrow> active_positions (self w) ! i = p \<Longrightarrow> status p = ''active''
                 \<Longrightarrow> P (snd (record_sale g i p q w))"
    and "P w" and "drop i (active_positions (self w)) = ps"
    and "\<forall>x\<in>set rm. status x = ''sold''"
  shows "P (snd (sell_loop g cfg ps i cp rm w))
    \<and> (\<forall>rm'. fst (sell_loop g cfg ps i cp rm w) = Inr rm' \<longrightarrow> (\<forall>x\<in>set rm'. status x = ''sold''))"
  using assms(4-6)
proof (induction ps arbitrary: i cp rm w)
  case Nil
  then show ?case by simp
next
  case (Cons p ps)
  let ?xs = "active_positions (self w)"
  have i: "i < length ?xs"
    using Cons.prems(2) by (metis drop_all list.distinct(1) not_le)
  have p: "?xs ! i = p"
    using Cons.prems(2) by (metis nth_via_drop)
  have rest: "drop (Suc i) ?xs = ps"
    using Cons.prems(2) by (metis drop_Suc tl_drop list.sel(3))
  note IH = Cons.IH
  show ?case
  proof (cases "status p = ''active''")
    case False
    then show ?thesis
      using IH [OF Cons.prems(1) rest Cons.prems(3)] by simp
  next
    case active: True
    show ?thesis
    proof (cases "sell_target_price p \<le> cp")
      case True
      obtain r1 w1 where e1: "check_price_slippage g cfg cp ''sell'' w = (r1, w1)"
        by fastforce
      have l1: "same_ledger w w1"
        by (rule quiet_check_price_slippage(1) [OF e1])
      have P1: "P w1" using frame Cons.prems(1) l1 by blast
      have s1: "self w1 = self w" using l1 by (simp add: same_ledger_def)
      show ?thesis
      proof (cases r1)
        case (Inl reason)
        have "drop (Suc i) (active_positions (self w1)) = ps" using rest s1 by simp
        from IH [OF P1 this Cons.prems(3)] show ?thesis
          using active True e1 Inl by simp
      next
        case (Inr q)
        obtain ok w2 where e2: "unstake_sn73 g (alpha_amount p) w1 = (ok, w2)"
          by fastforce
        have l2: "same_ledger w1 w2" by (rule quiet_unstake_sn73 [OF e2])
        have P2: "P w2" using frame P1 l2 by blast
        have s2: "self w2 = self w" using l2 s1 by (simp add: same_ledger_def)
        show ?thesis
        proof (cases ok)
          case False
          let ?w3 = "w2\<lparr>self := (self w2)\<lparr>failed_sells := failed_sells (self w2) + 1\<rparr>\<rparr>"
          have P3: "P ?w3" using fail P2 by blast
          have "drop (Suc i) (active_positions (self ?w3)) = ps" using rest s2 by simp
          from IH [OF P3 this Cons.prems(3)] show ?thesis
            using active True e1 Inr e2 False by simp
        next
          case sold: True
          show ?thesis
          proof (cases "tao_invested p = 0")
            case True
            then show ?thesis
              using active \<open>sell_target_price p \<le> cp\<close> e1 Inr e2 sold P2 by simp
          next
            case False
            obtain p' w3 where e3: "record_sale g i p q w2 = (p', w3)" by fastforce
            have P3: "P w3"
              using sale [of w2 i p q] P2 i p s2 active e3 by simp
            have p': "status p' = ''sold''"
              using fst_record_sale [of g i p q w2] e3 by (simp add: status_sold_position)
            have "active_positions (self w3) = ?xs[i := p']"
              using self_record_sale [of g i p q w2] fst_record_sale [of g i p q w2] e3 s2
              by simp
            then have r3: "drop (Suc i) (active_positions (self w3)) = ps"
              using rest by simp
            have "\<forall>x\<in>set (rm @ [p']). status x = ''sold''"
              using Cons.prems(3) p' by simp
            from IH [OF P3 r3 this] show ?thesis
              using active \<open>sell_target_price p \<le> cp\<close> e1 Inr e2 sold False e3 by simp
          qed
        qed
      qed
    next
      case False
      have P': "P (say n w)" for n
        using frame Cons.prems(1) quiet_say by blast
      have r': "drop (Suc i) (active_positions (self (say n w))) = ps" for n
        using rest by (simp add: say_def)
      show ?thesis
        using IH [OF Cons.prems(1) rest Cons.prems(3)] IH [OF P' r' Cons.prems(3)] active False
        by (simp add: Let_def split: option.splits)
    qed
  qed
qed

text \<open>
  A property of the world that depends only on the bot and the state file, and that the
  four ledger steps (recording a purchase, a sale, a failed sale, removing the sold
  positions) preserve, holds after a cycle; if a restart preserves it too, it holds
  along every run.
\<close>

lemma quiet_print_status: "same_ledger w (print_status g cfg w)"
proof (cases "max_investment cfg = 0")
  case True
  then show ?thesis by (simp add: print_status_def)
next
  case False
  obtain r w' where e: "get_wallet_balance g w = (r, w')" by fastforce
  from quiet_get_wallet_balance(1) [OF e] show ?thesis
    using False e by (simp add: print_status_def)
qed

lemma check_and_execute_sells_rule:
  fixes P :: "world \<Rightarrow> bool"
  assumes frame: "\<And>w w'. P w \<Longrightarrow> same_ledger w w' \<Longrightarrow> P w'"
    and fail: "\<And>w. P w \<Longrightarrow> P (w\<lparr>self := (self w)\<lparr>failed_sells := failed_sells (self w) + 1\<rparr>\<rparr>)"
    and sale: "\<And>w i p q. P w \<Longrightarrow> i < length (active_positions (self w))
                 \<Longrightarrow> active_positions (self w) ! i = p \<Longrightarrow> status p = ''active''
                 \<Longrightarrow> P (snd (record_sale g i p q w))"
    and remove: "\<And>w rm. P w \<Longrightarrow> \<forall>x\<in>set rm. status x = ''sold'' \<Longrightarrow> P (remove_sold rm w)"
    and "P w"
  shows "P (check_and_execute_sells g cfg w)"
proof (cases "active_positions (self w) = []")
  case True
  then show ?thesis using assms(5) by (simp add: check_and_execute_sells_def)
next
  case False
  obtain r1 w1 where e1: "get_subnet_info g w = (r1, w1)" by fastforce
  have P1: "P w1" using frame assms(5) quiet_get_subnet_info(1) [OF e1] by blast
  show ?thesis
  proof (cases r1)
    case (Inl e)
    then show ?thesis using False e1 P1 by (simp add: check_and_execute_sells_def)
  next
    case (Inr quote)
    show ?thesis
    proof (cases quote)
      case None
      then show ?thesis using False e1 Inr P1 by (simp add: check_and_execute_sells_def)
    next
      case (Some cp)
      obtain r2 w2 where e2: "sell_loop g cfg (active_positions (self w1)) 0 cp [] w1 = (r2, w2)"
        by fastforce
      have "P (snd (sell_loop g cfg (active_positions (self w1)) 0 cp [] w1))
        \<and> (\<forall>rm'. fst (sell_loop g cfg (active_positions (self w1)) 0 cp [] w1) = Inr rm'
              \<longrightarrow> (\<forall>x\<in>set rm'. status x = ''sold''))"
        by (rule sell_loop_rule [of P g, OF frame fail sale P1]) simp_all
      then have P2: "P w2" and sold: "r2 = Inr rm' \<Longrightarrow> \<forall>x\<in>set rm'. status x = ''sold''" for rm'
        using e2 by simp_all
      show ?thesis
      proof (cases r2)
        case (Inl e)
        then show ?thesis
          using False e1 Inr Some e2 P2 by (simp add: check_and_execute_sells_def)
      next
        case (Inr rm')
        then show ?thesis
          using False e1 \<open>r1 = Inr quote\<close> Some e2 remove [OF P2 sold [OF Inr]]
          by (simp add: check_and_execute_sells_def)
      qed
    qed
  qed
qed

lemma dca_phase_rule:
  fixes P :: "world \<Rightarrow> bool"
  assumes frame: "\<And>w w'. P w \<Longrightarrow> same_ledger w w' \<Longrightarrow> P w'"
    and purchase: "\<And>w price alpha. P w \<Longrightarrow> P (record_purchase g cfg price alpha w)"
    and "P w"
  shows "P (dca_phase g cfg w)"
proof -
  have said: "P (say n w')" if "P w'" for n w'
    using frame that quiet_say by blast
  have clock: "P (snd (read_clock g w'))" if "P w'" for w'
    using frame that quiet_read_clock by blast
  have attempt: "P (snd (execute_dca_purchase g cfg w'))" if "P w'" for w'
    using execute_dca_purchase_cases [of w' g cfg]
  proof
    assume "same_ledger w' (snd (execute_dca_purchase g cfg w'))"
    then show ?thesis using frame that by blast
  next
    assume "\<exists>w3 price. same_ledger w' w3 \<and> stake_calls w3 = stake_calls w'
         \<and> fst (stake_sn73 g (dca_amount cfg) w3)
         \<and> snd (execute_dca_purchase g cfg w')
             = record_purchase g cfg price (dca_amount cfg / price)
                 (snd (stake_sn73 g (dca_amount cfg) w3))"
    then obtain w3 price where l: "same_ledger w' w3"
      and e: "snd (execute_dca_purchase g cfg w')
             = record_purchase g cfg price (dca_amount cfg / price)
                 (snd (stake_sn73 g (dca_amount cfg) w3))"
      by blast
    have "same_ledger w3 (snd (stake_sn73 g (dca_amount cfg) w3))"
      by (rule quiet_stake_sn73 [of g "dca_amount cfg" w3 "fst (stake_sn73 g (dca_amount cfg) w3)"]) simp
    then have "P (snd (stake_sn73 g (dca_amount cfg) w3))"
      using frame that l by blast
    then show ?thesis using purchase e by simp
  qed
  have wait: "P (snd (get_time_until_next_dca g cfg w'))" if "P w'" for w'
    using that clock [OF that] by (auto simp: get_time_until_next_dca_def Let_def split: prod.splits)
  have gate: "snd (is_time_for_dca g cfg w') = snd (read_clock g w')" for w'
    by (simp add: is_time_for_dca_def Let_def split: prod.splits)
  show ?thesis
    using said [OF assms(3)] clock [OF assms(3)] attempt [OF clock [OF assms(3)]]
      said [OF wait [OF clock [OF assms(3)]]] gate [of w]
    by (cases "is_time_for_dca g cfg w") (auto simp: dca_phase_def split: prod.splits bool.splits)
qed


lemma micro_grid_cycle_rule:
  fixes P :: "world \<Rightarrow> bool"
  assumes frame: "\<And>w w'. P w \<Longrightarrow> same_ledger w w' \<Longrightarrow> P w'"
    and purchase: "\<And>w price alpha. P w \<Longrightarrow> P (record_purchase g cfg price alpha w)"
    and fail: "\<And>w. P w \<Longrightarrow> P (w\<lparr>self := (self w)\<lparr>failed_sells := failed_sells (self w) + 1\<rparr>\<rparr>)"
    and sale: "\<And>w i p q. P w \<Longrightarrow> i < length (active_positions (self w))
                 \<Longrightarrow> active_positions (self w) ! i = p \<Longrightarrow> status p = ''active''
                 \<Longrightarrow> P (snd (record_sale g i p q w))"
    and remove: "\<And>w rm. P w \<Longrightarrow> \<forall>x\<in>set rm. status x = ''sold'' \<Longrightarrow> P (remove_sold rm w)"
    and "P w"
  shows "P (micro_grid_cycle g cfg w)"
proof -
  have bought: "P (dca_phase g cfg w)"
    by (rule dca_phase_rule [of P, OF frame purchase assms(6)])
  have "P (check_and_execute_sells g cfg (dca_phase g cfg w))"
    by (rule check_and_execute_sells_rule [of P, OF frame fail sale remove bought])
  then show ?thesis
    unfolding micro_grid_cycle_def using frame quiet_print_status by blast
qed

lemma run_rule:
  fixes P :: "world \<Rightarrow> bool"
  assumes frame: "\<And>w w'. P w \<Longrightarrow> same_ledger w w' \<Longrightarrow> P w'"
    and purchase: "\<And>w price alpha. P w \<Longrightarrow> P (record_purchase g cfg price alpha w)"
    and fail: "\<And>w. P w \<Longrightarrow> P (w\<lparr>self := (self w)\<lparr>failed_sells := failed_sells (self w) + 1\<rparr>\<rparr>)"
    and sale: "\<And>w i p q. P w \<Longrightarrow> i < length (active_positions (self w))
                 \<Longrightarrow> active_positions (self w) ! i = p \<Longrightarrow> status p = ''active''
                 \<Longrightarrow> P (snd (record_sale g i p q w))"
    and remove: "\<And>w rm. P w \<Longrightarrow> \<forall>x\<in>set rm. status x = ''sold'' \<Longrightarrow> P (remove_sold rm w)"
    and restart: "\<And>w. P w \<Longrightarrow> P (restart g w)"
    and "P w"
  shows "P (run g cfg es w)"
  using assms(7)
proof (induction es arbitrary: w)
  case Nil
  then show ?case by simp
next
  case (Cons e es)
  show ?case
  proof (cases e)
    case Cycle
    have "P (micro_grid_cycle g cfg w)"
      by (rule micro_grid_cycle_rule [of P, OF frame purchase fail sale remove Cons.prems])
    then show ?thesis using Cons.IH Cycle by simp
  next
    case Restart
    then show ?thesis using Cons.IH restart [OF Cons.prems] by simp
  qed
qed

subsection \<open>The time gate before the first purchase\<close>

text \<open>
  Claim C10. While no purchase has succeeded (\<^verbatim>\<open>last_dca_time == 0\<close>), the time gate passes
  whatever the configured interval and whatever the clock says: \<^verbatim>\<open>is_time_for_dca()\<close>
  returns true and \<^verbatim>\<open>get_time_until_next_dca()\<close> returns 0. So a cycle that is below
  the cap and below the position limit goes straight to \<^verbatim>\<open>execute_dca_purchase\<close>.
\<close>

theorem first_dca_passes_time_gate:
  assumes "last_dca_time (self w) = 0"
  shows "fst (is_time_for_dca g cfg w) \<and> fst (get_time_until_next_dca g cfg w) = 0
    \<and> (\<not> is_at_investment_cap cfg (self w)
          \<and> int (length (active_positions (self w))) < max_positions cfg
        \<longrightarrow> dca_phase g cfg w = snd (execute_dca_purchase g cfg (snd (read_clock g w))))"
  using assms
  by (simp add: is_time_for_dca_def get_time_until_next_dca_def read_clock_def dca_phase_def)

theorem first_dca_passes_time_gate_witness:
  "last_dca_time (self (fresh_world 0)) = 0
   \<and> fst (is_time_for_dca scenario_gateway sn73_config (fresh_world 0))
   \<and> fst (get_time_until_next_dca scenario_gateway sn73_config (fresh_world 0)) = 0
   \<and> \<not> is_at_investment_cap sn73_config (self (fresh_world 0))
   \<and> int (length (active_positions (self (fresh_world 0)))) < max_positions sn73_config
   \<and> dca_phase scenario_gateway sn73_config (fresh_world 0)
       = snd (execute_dca_purchase scenario_gateway sn73_config
                (snd (read_clock scenario_gateway (fresh_world 0))))"
proof -
  have h: "last_dca_time (self (fresh_world 0)) = 0"
    by (simp add: fresh_world_def init_bot_def)
  have c: "\<not> is_at_investment_cap sn73_config (self (fresh_world 0))
     \<and> int (length (active_positions (self (fresh_world 0)))) < max_positions sn73_config"
    by (simp add: fresh_world_def init_bot_def is_at_investment_cap_def sn73_config_def)
  from first_dca_passes_time_gate [OF h, of scenario_gateway sn73_config] h c
  show ?thesis by blast
qed

subsection \<open>The slippage check\<close>



subsection \<open>The scenario of one purchase and one sale\<close>

text \<open>
  Claim C4, as amended. With a purchase amount of 0.05, a profit target of 15 percent and
  an entry price of 1.0, the first cycle opens position 1 with \<^verbatim>\<open>alpha_amount\<close> 0.05 and
  \<^verbatim>\<open>sell_target_price\<close> 1.15. The second cycle sees the price 1.16, passes the slippage
  check and sells at 1.16: the position receives \<open>0.05 * 1.16 = 0.058\<close> TAO and its
  \<^verbatim>\<open>profit_tao\<close> is \<open>0.058 - 0.05 = 0.008\<close>.
\<close>

theorem scenario_open_and_close:
  "map (\<lambda>p. (pos_id p, buy_price p, alpha_amount p, sell_target_price p, status p))
       (active_positions (self (run scenario_gateway sn73_config [Cycle] (fresh_world 0))))
     = [(1, 1, 5 / 100, 115 / 100, ''active'')]
   \<and> active_positions (self (run scenario_gateway sn73_config [Cycle, Cycle] (fresh_world 0))) = []
   \<and> map (\<lambda>p. (pos_id p, status p, sell_price p, tao_received p, profit_tao p))
       (completed_trades (self (run scenario_gateway sn73_config [Cycle, Cycle] (fresh_world 0))))
     = [(1, ''sold'', Some (116 / 100), Some (58 / 1000), Some (8 / 1000))]"
  by (simp add: gateway_calls bot_methods sn73_config_def scenario_gateway_def quoting_def)

text \<open>
  The figure 0.003 of the claim is not what the sale at 1.16 yields.
\<close>

theorem scenario_profit_counterexample:
  "map sell_price
       (completed_trades (self (run scenario_gateway sn73_config [Cycle, Cycle] (fresh_world 0))))
     = [Some (116 / 100)]
   \<and> map profit_tao
       (completed_trades (self (run scenario_gateway sn73_config [Cycle, Cycle] (fresh_world 0))))
     \<noteq> [Some (3 / 1000)]"
  by (simp add: gateway_calls bot_methods sn73_config_def scenario_gateway_def quoting_def)

subsection \<open>The running total of invested capital, in exact arithmetic\<close>

lemma active_capital_append:
  "active_capital (xs @ [p]) =
     active_capital xs + (if status p = ''active'' then tao_invested p else 0)"
  by (simp add: active_capital_def)

lemma active_capital_update:
  "i < length xs \<Longrightarrow> status (xs ! i) = ''active'' \<Longrightarrow> status p' \<noteq> ''active''
   \<Longrightarrow> active_capital (xs[i := p']) = active_capital xs - tao_invested (xs ! i)"
proof (induction xs arbitrary: i)
  case Nil
  then show ?case by simp
next
  case (Cons x xs)
  then show ?case
    by (cases i) (auto simp: active_capital_def)
qed

lemma active_capital_remove1:
  "status x \<noteq> ''active'' \<Longrightarrow> active_capital (remove1 x xs) = active_capital xs"
  by (induction xs) (auto simp: active_capital_def)

lemma active_capital_fold_remove1:
  "\<forall>x\<in>set rm. status x = ''sold'' \<Longrightarrow> active_capital (fold remove1 rm xs) = active_capital xs"
  by (induction rm arbitrary: xs) (simp_all add: active_capital_remove1)

lemma active_capital_map:
  assumes "\<And>p. status (f p) = status p" and "\<And>p. tao_invested (f p) = tao_invested p"
  shows "active_capital (map f xs) = active_capital xs"
  by (induction xs) (simp_all add: active_capital_def assms)

lemma books_balance_dump_bot: "books_balance (dump_bot b) = books_balance b"
  by (simp add: books_balance_def dump_bot_def active_capital_map dump_position_def)

lemma ledger_consistent_frame:
  "ledger_consistent w \<Longrightarrow> same_ledger w w' \<Longrightarrow> ledger_consistent w'"
  by (simp add: ledger_consistent_def same_ledger_def)

lemma ledger_consistent_purchase:
  assumes "ledger_consistent w"
  shows "ledger_consistent (record_purchase g cfg price alpha w)"
proof -
  have "books_balance (self (record_purchase g cfg price alpha w))"
    using assms
    by (simp add: self_record_purchase ledger_consistent_def books_balance_def
        active_capital_append new_position_def)
  then show ?thesis
    by (simp add: ledger_consistent_def state_file_record_purchase books_balance_dump_bot)
qed

lemma ledger_consistent_fail:
  "ledger_consistent w
   \<Longrightarrow> ledger_consistent (w\<lparr>self := (self w)\<lparr>failed_sells := failed_sells (self w) + 1\<rparr>\<rparr>)"
  by (simp add: ledger_consistent_def books_balance_def)

lemma ledger_consistent_sale:
  assumes "ledger_consistent w" and "i < length (active_positions (self w))"
    and "active_positions (self w) ! i = p" and "status p = ''active''"
  shows "ledger_consistent (snd (record_sale g i p q w))"
proof -
  have "books_balance (self (snd (record_sale g i p q w)))"
    using assms
    by (simp add: self_record_sale ledger_consistent_def books_balance_def
        active_capital_update status_sold_position)
  then show ?thesis
    by (simp add: ledger_consistent_def state_file_record_sale books_balance_dump_bot)
qed

lemma ledger_consistent_remove:
  "ledger_consistent w \<Longrightarrow> \<forall>x\<in>set rm. status x = ''sold''
   \<Longrightarrow> ledger_consistent (remove_sold rm w)"
  by (simp add: ledger_consistent_def books_balance_def remove_sold_def
      active_capital_fold_remove1)

lemma ledger_consistent_restart:
  assumes "ledger_consistent w"
  shows "ledger_consistent (restart g w)"
proof (cases "state_file w")
  case None
  then show ?thesis
    by (simp add: restart_def read_clock_def load_state_def ledger_consistent_def
        books_balance_def init_bot_def active_capital_def)
next
  case (Some f)
  obtain state t where f: "f = (state, t)" by (cases f)
  have "active_capital (map load_active xs) = active_capital xs" for xs
    by (rule active_capital_map) (simp_all add: load_active_def)
  then show ?thesis
    using assms Some f
    by (simp add: restart_def read_clock_def load_state_def ledger_consistent_def
        books_balance_def)
qed

lemma ledger_consistent_fresh: "ledger_consistent (fresh_world t)"
  by (simp add: ledger_consistent_def fresh_world_def init_bot_def books_balance_def
      active_capital_def)

text \<open>
  With the amounts read as exact numbers, the books balance along every run (cycles
  with whatever purchases and sales the network lets through, and restarts from the
  state file): \<^verbatim>\<open>total_invested\<close> equals the sum of \<^verbatim>\<open>tao_invested\<close> over the positions of
  the active list whose status is \<^verbatim>\<open>"active"\<close>, in memory and in the state file. The
  source keeps the total in a binary float, whose \<^verbatim>\<open>+=\<close> and \<^verbatim>\<open>-=\<close> round: there the total
  and the sum can differ in the last places, which this lemma does not see.
\<close>

lemma books_balance_in_exact_arithmetic:
  assumes "ledger_consistent w"
  shows "ledger_consistent (run g cfg es w)"
  by (rule run_rule [of ledger_consistent g cfg,
        OF ledger_consistent_frame ledger_consistent_purchase ledger_consistent_fail
           ledger_consistent_sale ledger_consistent_remove ledger_consistent_restart assms])

subsection \<open>The stop-loss branch\<close>

text \<open>
  Claim C8, on the input where the code departs from it. With a stop-loss of 10 percent,
  position 1 is bought at 1.0 and the sell scan of the same cycle sees the price 0.8,
  below the stop-loss price 0.9. The scan prints the notice and does nothing else: no
  slippage check (the three price queries are the two of the purchase and the one of
  the scan), no \<^verbatim>\<open>unstake\<close> call, and the position stays active.
\<close>

theorem stop_loss_only_reported:
  "all_subnets falling_gateway 2 = Returned (Some (8 / 10))
   \<and> console (run falling_gateway stop_loss_config [Cycle] (fresh_world 0)) = [StopLossHit 1]
   \<and> subnet_calls (run falling_gateway stop_loss_config [Cycle] (fresh_world 0)) = 3
   \<and> unstake_calls (run falling_gateway stop_loss_config [Cycle] (fresh_world 0)) = 0
   \<and> map (\<lambda>p. (pos_id p, buy_price p, status p))
        (active_positions (self (run falling_gateway stop_loss_config [Cycle] (fresh_world 0))))
      = [(1, 1, ''active'')]
   \<and> completed_trades (self (run falling_gateway stop_loss_config [Cycle] (fresh_world 0))) = []
   \<and> total_invested (self (run falling_gateway stop_loss_config [Cycle] (fresh_world 0))) = 5 / 100"
  by (simp add: gateway_calls bot_methods sn73_config_def stop_loss_config_def
      falling_gateway_def quoting_def)

subsection \<open>The cap gate\<close>

text \<open>A cycle that finds the total at or above the upper limit opens nothing.\<close>

lemma paused_cycle_opens_nothing:
  assumes "is_at_investment_cap cfg (self w)"
  shows "dca_phase g cfg w = say CapReached w"
  using assms by (simp add: dca_phase_def)

text \<open>
  Claim C1, on the input where the code departs from it. With the cap 1.0 and the
  tolerance 0.5, three purchases of 0.5 bring the total to the upper limit 1.5 and the
  fourth cycle is paused. Its sell scan closes position 3, so the total drops to 1.0,
  which is not below the lower limit 0.5: \<^verbatim>\<open>can_resume_dca\<close> is false. The fifth cycle
  opens position 4 all the same, because the cycle only asks \<^verbatim>\<open>is_at_investment_cap\<close>.
\<close>

theorem cap_gate_reopens_without_resume_test:
  "is_at_investment_cap narrow_config
      (self (run stepping_gateway narrow_config [Cycle, Cycle, Cycle] (fresh_world 0)))
   \<and> console (run stepping_gateway narrow_config [Cycle, Cycle, Cycle, Cycle] (fresh_world 0))
       = [CapReached]
   \<and> total_invested
        (self (run stepping_gateway narrow_config [Cycle, Cycle, Cycle, Cycle] (fresh_world 0))) = 1
   \<and> position_counter
        (self (run stepping_gateway narrow_config [Cycle, Cycle, Cycle, Cycle] (fresh_world 0))) = 3
   \<and> \<not> can_resume_dca narrow_config
        (self (run stepping_gateway narrow_config [Cycle, Cycle, Cycle, Cycle] (fresh_world 0)))
   \<and> \<not> is_at_investment_cap narrow_config
        (self (run stepping_gateway narrow_config [Cycle, Cycle, Cycle, Cycle] (fresh_world 0)))
   \<and> position_counter
        (self (run stepping_gateway narrow_config [Cycle, Cycle, Cycle, Cycle, Cycle]
                 (fresh_world 0))) = 4
   \<and> total_invested
        (self (run stepping_gateway narrow_config [Cycle, Cycle, Cycle, Cycle, Cycle]
                 (fresh_world 0))) = 3 / 2"
  by (simp add: gateway_calls bot_methods narrow_config_def stepping_gateway_def quoting_def)

subsection \<open>Loading what was saved\<close>

text \<open>Saving and loading gives back a bot that is settled.\<close>

lemma load_active_dump_position:
  "is_datetime (created_timestamp p) \<Longrightarrow> sell_timestamp p = None
   \<Longrightarrow> load_active (dump_position p) = p"
  by (cases "created_timestamp p") (simp_all add: is_datetime_def load_active_def dump_position_def)

lemma load_trade_dump_position:
  "is_datetime (created_timestamp p)
   \<Longrightarrow> (case sell_timestamp p of None \<Rightarrow> True | Some s \<Rightarrow> is_datetime s)
   \<Longrightarrow> load_trade (dump_position p) = p"
  by (cases "created_timestamp p"; cases "sell_timestamp p"; cases "the (sell_timestamp p)")
     (simp_all add: is_datetime_def load_trade_def dump_position_def)

lemma load_state_save_state_settled:
  assumes "settled (self w)"
  shows "self (load_state (save_state g w)) = self w"
proof -
  have "map load_active (map dump_position (active_positions (self w))) = active_positions (self w)"
    using assms by (auto simp: settled_def list_all_iff load_active_dump_position intro: map_idI)
  moreover
  have "map load_trade (map dump_position (completed_trades (self w))) = completed_trades (self w)"
    using assms by (auto simp: settled_def list_all_iff load_trade_dump_position intro: map_idI)
  ultimately show ?thesis
    by (simp add: load_state_def save_state_def read_clock_def dump_bot_def)
qed

text \<open>
  Claim C3, on the input where the code departs from it. The snapshot of a sale is
  written while the sold position is still in the active list, with its
  \<^verbatim>\<open>sell_timestamp\<close>. \<^verbatim>\<open>load_state\<close> converts only \<^verbatim>\<open>created_timestamp\<close> in the active list,
  so loading that snapshot gives the position back with a string where the saved state
  had a \<^verbatim>\<open>datetime\<close>. The file of the scenario is this snapshot: after the second cycle
  the active list in memory is empty, and a restart brings position 1 back into it,
  marked sold.
\<close>

theorem snapshot_of_a_sale_does_not_round_trip:
  "map_option fst (state_file (run scenario_gateway sn73_config [Cycle, Cycle] (fresh_world 0)))
     = Some (dump_bot (self scenario_sale))
   \<and> map (\<lambda>p. (pos_id p, status p, sell_timestamp p)) (active_positions (self scenario_sale))
       = [(1, ''sold'', Some (DT 1))]
   \<and> map (\<lambda>p. (pos_id p, status p, sell_timestamp p))
        (active_positions (self (load_state (save_state scenario_gateway scenario_sale))))
       = [(1, ''sold'', Some (IsoStr 1))]
   \<and> self (load_state (save_state scenario_gateway scenario_sale)) \<noteq> self scenario_sale
   \<and> active_positions (self (run scenario_gateway sn73_config [Cycle, Cycle] (fresh_world 0))) = []
   \<and> map (\<lambda>p. (pos_id p, status p, sell_timestamp p))
        (active_positions
          (self (run scenario_gateway sn73_config [Cycle, Cycle, Restart] (fresh_world 0))))
       = [(1, ''sold'', Some (IsoStr 1))]"
  by (simp add: scenario_sale_def load_state_def load_active_def load_trade_def restart_def
      gateway_calls bot_methods sn73_config_def scenario_gateway_def quoting_def)

subsection \<open>Retries of the stake call\<close>





text \<open>
  Outside the statements above: \<^verbatim>\<open>stake_sn73\<close> drops what \<^verbatim>\<open>add_stake\<close> returns, so a call
  that returns \<^verbatim>\<open>False\<close> is taken for a success and opens a position.
\<close>

lemma returned_failure_is_taken_for_success:
  "add_stake ((quoting (\<lambda>k. 1))\<lparr>add_stake := (\<lambda>k a. Returned False)\<rparr>) 0 (dca_amount sn73_config)
     = Returned False
   \<and> position_counter
        (self (dca_phase ((quoting (\<lambda>k. 1))\<lparr>add_stake := (\<lambda>k a. Returned False)\<rparr>)
                 sn73_config (fresh_world 0))) = 1"
  by (simp add: gateway_calls bot_methods sn73_config_def quoting_def)

subsection \<open>What the state file keeps\<close>

lemma dump_load_dump_position:
  "dump_position (load_trade (dump_position p)) = dump_position p"
proof -
  have "default_str (fromisoformat_if_str (default_str c)) = default_str c" for c
    by (cases c) simp_all
  then have "map_option default_str (map_option fromisoformat_if_str (map_option default_str c))
      = map_option default_str c" for c
    by (cases c) simp_all
  then show ?thesis
    using \<open>\<And>c. default_str (fromisoformat_if_str (default_str c)) = default_str c\<close>
    by (simp add: dump_position_def load_trade_def)
qed

lemma durable_frame: "durable w \<Longrightarrow> same_ledger w w' \<Longrightarrow> durable w'"
  by (simp add: durable_def Let_def same_ledger_def)

lemma persisted_durable: "persisted w \<Longrightarrow> durable w"
  by (auto simp: persisted_def durable_def Let_def dump_bot_def split: option.splits)

lemma persisted_record_purchase: "persisted (record_purchase g cfg price alpha w)"
  by (simp add: persisted_def state_file_record_purchase)

lemma persisted_record_sale: "persisted (snd (record_sale g i p q w))"
  by (simp add: persisted_def state_file_record_sale)

lemma durable_fail:
  "durable w \<Longrightarrow> durable (w\<lparr>self := (self w)\<lparr>failed_sells := failed_sells (self w) + 1\<rparr>\<rparr>)"
  by (simp add: durable_def Let_def)

lemma durable_remove: "durable w \<Longrightarrow> durable (remove_sold rm w)"
  by (simp add: durable_def Let_def remove_sold_def)

lemma durable_restart:
  assumes "durable w"
  shows "durable (restart g w)"
proof (cases "state_file w")
  case None
  then show ?thesis
    by (simp add: restart_def read_clock_def load_state_def durable_def Let_def init_bot_def)
next
  case (Some f)
  obtain state t where f: "f = (state, t)" by (cases f)
  have "completed_trades state = map dump_position (completed_trades (self w))"
    using assms Some f by (simp add: durable_def Let_def)
  then have "map dump_position (map load_trade (completed_trades state)) = completed_trades state"
    by (simp add: dump_load_dump_position)
  then show ?thesis
    using Some f by (simp add: restart_def read_clock_def load_state_def durable_def Let_def)
qed

lemma durable_run:
  assumes "durable w"
  shows "durable (run g cfg es w)"
proof (rule run_rule [of durable g cfg, OF _ _ _ _ _ _ assms])
  show "durable w'" if "durable w" "same_ledger w w'" for w w'
    using that by (rule durable_frame)
  show "durable (record_purchase g cfg price alpha w)" for w price alpha
    by (rule persisted_durable [OF persisted_record_purchase])
  show "durable (w\<lparr>self := (self w)\<lparr>failed_sells := failed_sells (self w) + 1\<rparr>\<rparr>)"
    if "durable w" for w
    using that by (rule durable_fail)
  show "durable (snd (record_sale g i p q w))" for w i p q
    by (rule persisted_durable [OF persisted_record_sale])
  show "durable (remove_sold rm w)" if "durable w" for w rm
    using that by (rule durable_remove)
  show "durable (restart g w)" if "durable w" for w
    using that by (rule durable_restart)
qed

lemma durable_fresh: "durable (fresh_world t)"
  by (simp add: durable_def Let_def fresh_world_def init_bot_def)

subsection \<open>Saving after a change\<close>

text \<open>
  Claim C7, as amended. A purchase that changes the bot and a successful sale are each
  followed at once by \<^verbatim>\<open>save_state\<close>: the world in which \<^verbatim>\<open>execute_dca_purchase\<close> ends,
  and the world with which the sell loop goes on after a sale, have the snapshot of the
  bot in the state file. So along every run the state file agrees with the bot on the
  invested total, the position counter, the completed trades, the realized profit, the
  count of successful sales and the time of the last purchase. Recording a failed sale
  (\<^verbatim>\<open>failed_sells += 1\<close>) writes nothing: the state file stays as it was.
\<close>

theorem snapshot_follows_purchase_and_sale:
  "(durable w \<longrightarrow> durable (run g cfg es w))
   \<and> (self (snd (execute_dca_purchase g cfg w)) \<noteq> self w
        \<longrightarrow> persisted (snd (execute_dca_purchase g cfg w)))
   \<and> (status p = ''active'' \<and> sell_target_price p \<le> cp
        \<and> check_price_slippage g cfg cp ''sell'' w = (Inr q, w1)
        \<and> unstake_sn73 g (alpha_amount p) w1 = (True, w2) \<and> tao_invested p \<noteq> 0
        \<longrightarrow> persisted (snd (sell_loop g cfg [p] i cp rm w)))
   \<and> (status p = ''active'' \<and> sell_target_price p \<le> cp
        \<and> check_price_slippage g cfg cp ''sell'' w = (Inr q, w1)
        \<and> unstake_sn73 g (alpha_amount p) w1 = (False, w2)
        \<longrightarrow> failed_sells (self (snd (sell_loop g cfg [p] i cp rm w))) = failed_sells (self w) + 1
            \<and> state_file (snd (sell_loop g cfg [p] i cp rm w)) = state_file w)"
proof -
  have a: "durable (run g cfg es w)" if "durable w"
    using that by (rule durable_run)
  have b: "persisted (snd (execute_dca_purchase g cfg w))"
    if "self (snd (execute_dca_purchase g cfg w)) \<noteq> self w"
    using execute_dca_purchase_cases [of w g cfg] that
    by (auto simp: same_ledger_def persisted_record_purchase)
  have c: "persisted (snd (sell_loop g cfg [p] i cp rm w))"
    if "status p = ''active''" "sell_target_price p \<le> cp"
      "check_price_slippage g cfg cp ''sell'' w = (Inr q, w1)"
      "unstake_sn73 g (alpha_amount p) w1 = (True, w2)" "tao_invested p \<noteq> 0"
  proof -
    have "snd (sell_loop g cfg [p] i cp rm w) = snd (record_sale g i p q w2)"
      using that by (simp split: prod.splits)
    then show ?thesis by (simp add: persisted_record_sale)
  qed
  have d: "failed_sells (self (snd (sell_loop g cfg [p] i cp rm w))) = failed_sells (self w) + 1
            \<and> state_file (snd (sell_loop g cfg [p] i cp rm w)) = state_file w"
    if "status p = ''active''" "sell_target_price p \<le> cp"
      and e1: "check_price_slippage g cfg cp ''sell'' w = (Inr q, w1)"
      and e2: "unstake_sn73 g (alpha_amount p) w1 = (False, w2)"
  proof -
    have "same_ledger w w2"
      using quiet_check_price_slippage(1) [OF e1] quiet_unstake_sn73 [OF e2]
      by (rule same_ledger_trans)
    then show ?thesis
      using that by (simp add: same_ledger_def)
  qed
  show ?thesis using a b c d by blast
qed

theorem snapshot_follows_purchase_and_sale_witness:
  "durable (fresh_world 0)
   \<and> durable (run scenario_gateway sn73_config [Cycle, Cycle, Restart, Cycle] (fresh_world 0))
   \<and> self (snd (execute_dca_purchase scenario_gateway sn73_config (fresh_world 0)))
       \<noteq> self (fresh_world 0)
   \<and> persisted (snd (execute_dca_purchase scenario_gateway sn73_config (fresh_world 0)))
   \<and> persisted
        (snd (sell_loop scenario_gateway sn73_config [new_position sn73_config 1 1 (5 / 100) 0] 0
                (116 / 100) [] (run scenario_gateway sn73_config [Cycle] (fresh_world 0))))
   \<and> failed_sells
        (self (snd (sell_loop stuck_gateway sn73_config [new_position sn73_config 1 1 (5 / 100) 0] 0
                      (116 / 100) [] (run stuck_gateway sn73_config [Cycle] (fresh_world 0)))))
       = failed_sells (self (run stuck_gateway sn73_config [Cycle] (fresh_world 0))) + 1
   \<and> state_file
        (snd (sell_loop stuck_gateway sn73_config [new_position sn73_config 1 1 (5 / 100) 0] 0
                (116 / 100) [] (run stuck_gateway sn73_config [Cycle] (fresh_world 0))))
       = state_file (run stuck_gateway sn73_config [Cycle] (fresh_world 0))"
proof -
  let ?p = "new_position sn73_config 1 1 (5 / 100) 0"
  let ?wa = "run scenario_gateway sn73_config [Cycle] (fresh_world 0)"
  let ?wb = "run stuck_gateway sn73_config [Cycle] (fresh_world 0)"
  let ?wa1 = "snd (check_price_slippage scenario_gateway sn73_config (116 / 100) ''sell'' ?wa)"
  let ?wb1 = "snd (check_price_slippage stuck_gateway sn73_config (116 / 100) ''sell'' ?wb)"
  have p: "status ?p = ''active''" "sell_target_price ?p \<le> 116 / 100" "tao_invested ?p \<noteq> 0"
    by (simp_all add: new_position_def sn73_config_def)
  have "fst (check_price_slippage scenario_gateway sn73_config (116 / 100) ''sell'' ?wa)
      = Inr (116 / 100)"
    by (simp add: gateway_calls bot_methods sn73_config_def scenario_gateway_def quoting_def)
  then have a1: "check_price_slippage scenario_gateway sn73_config (116 / 100) ''sell'' ?wa
      = (Inr (116 / 100), ?wa1)"
    by (simp add: prod_eq_iff)
  have "fst (unstake_sn73 scenario_gateway a w')" for a w'
    by (simp add: unstake_sn73_def max_retries_Suc scenario_gateway_def quoting_def)
  then have a2: "unstake_sn73 scenario_gateway (alpha_amount ?p) ?wa1
      = (True, snd (unstake_sn73 scenario_gateway (alpha_amount ?p) ?wa1))"
    by (simp add: prod_eq_iff)
  have "fst (check_price_slippage stuck_gateway sn73_config (116 / 100) ''sell'' ?wb)
      = Inr (116 / 100)"
    by (simp add: gateway_calls bot_methods sn73_config_def stuck_gateway_def
        scenario_gateway_def quoting_def)
  then have b1: "check_price_slippage stuck_gateway sn73_config (116 / 100) ''sell'' ?wb
      = (Inr (116 / 100), ?wb1)"
    by (simp add: prod_eq_iff)
  have "\<not> fst (unstake_sn73 stuck_gateway a w')" for a w'
    by (simp add: unstake_sn73_def max_retries_Suc stuck_gateway_def scenario_gateway_def
        quoting_def)
  then have b2: "unstake_sn73 stuck_gateway (alpha_amount ?p) ?wb1
      = (False, snd (unstake_sn73 stuck_gateway (alpha_amount ?p) ?wb1))"
    by (simp add: prod_eq_iff)
  have c: "self (snd (execute_dca_purchase scenario_gateway sn73_config (fresh_world 0)))
       \<noteq> self (fresh_world 0)"
    by (simp add: gateway_calls bot_methods sn73_config_def scenario_gateway_def quoting_def)
  note t = snapshot_follows_purchase_and_sale
  show ?thesis
    using durable_fresh [of 0] c p(1-3) a1 a2 b1 b2
      t [of "fresh_world 0" scenario_gateway sn73_config "[Cycle, Cycle, Restart, Cycle]"]
      t [where g = scenario_gateway and cfg = sn73_config and p = ?p and cp = "116 / 100"
           and w = ?wa and q = "116 / 100" and ?w1.0 = ?wa1
           and ?w2.0 = "snd (unstake_sn73 scenario_gateway (alpha_amount ?p) ?wa1)"
           and i = 0 and rm = "[]"]
      t [where g = stuck_gateway and cfg = sn73_config and p = ?p and cp = "116 / 100"
           and w = ?wb and q = "116 / 100" and ?w1.0 = ?wb1
           and ?w2.0 = "snd (unstake_sn73 stuck_gateway (alpha_amount ?p) ?wb1)"
           and i = 0 and rm = "[]"]
    by blast
qed

text \<open>
  The claim as stated fails for a failed sale: the three \<^verbatim>\<open>unstake\<close> attempts of the
  second cycle raise, \<^verbatim>\<open>failed_sells\<close> becomes 1 in memory, and the state file still has 0.
\<close>

theorem failed_sale_not_persisted_counterexample:
  "failed_sells (self (run stuck_gateway sn73_config [Cycle, Cycle] (fresh_world 0))) = 1
   \<and> map_option (\<lambda>f. failed_sells (fst f))
        (state_file (run stuck_gateway sn73_config [Cycle, Cycle] (fresh_world 0))) = Some 0
   \<and> unstake_calls (run stuck_gateway sn73_config [Cycle, Cycle] (fresh_world 0)) = 3
   \<and> \<not> persisted (run stuck_gateway sn73_config [Cycle, Cycle] (fresh_world 0))"
  by (simp add: persisted_def gateway_calls bot_methods sn73_config_def stuck_gateway_def
      scenario_gateway_def quoting_def)

subsection \<open>Position ids\<close>

lemma position_counter_check_and_execute_sells:
  "position_counter (self (check_and_execute_sells g cfg w)) = position_counter (self w)"
proof -
  define c where "c = position_counter (self w)"
  have "(\<lambda>w'. position_counter (self w') = c) (check_and_execute_sells g cfg w)"
  proof (rule check_and_execute_sells_rule [of "\<lambda>w'. position_counter (self w') = c" g])
    show "position_counter (self w) = c" by (simp add: c_def)
  qed (simp_all add: same_ledger_def self_record_sale remove_sold_def)
  then show ?thesis by (simp add: c_def)
qed

lemma position_counter_micro_grid_cycle:
  "position_counter (self (micro_grid_cycle g cfg w)) = position_counter (self (dca_phase g cfg w))"
  using quiet_print_status [of "check_and_execute_sells g cfg (dca_phase g cfg w)" g cfg]
  by (simp add: micro_grid_cycle_def same_ledger_def position_counter_check_and_execute_sells)

lemma dca_phase_cases:
  "same_ledger w (dca_phase g cfg w)
   \<or> (\<exists>w3 price alpha. self w3 = self w \<and> dca_phase g cfg w = record_purchase g cfg price alpha w3)"
proof -
  let ?w1 = "snd (read_clock g w)"
  have s1: "self ?w1 = self w" "state_file ?w1 = state_file w"
    by (simp_all add: read_clock_def)
  have attempt: "same_ledger w (snd (execute_dca_purchase g cfg ?w1))
   \<or> (\<exists>w3 price alpha. self w3 = self w
        \<and> snd (execute_dca_purchase g cfg ?w1) = record_purchase g cfg price alpha w3)"
    using execute_dca_purchase_cases [of ?w1 g cfg]
  proof
    assume "same_ledger ?w1 (snd (execute_dca_purchase g cfg ?w1))"
    then show ?thesis using s1 by (simp add: same_ledger_def)
  next
    assume "\<exists>w3 price. same_ledger ?w1 w3 \<and> stake_calls w3 = stake_calls ?w1
         \<and> fst (stake_sn73 g (dca_amount cfg) w3)
         \<and> snd (execute_dca_purchase g cfg ?w1)
             = record_purchase g cfg price (dca_amount cfg / price)
                 (snd (stake_sn73 g (dca_amount cfg) w3))"
    then obtain w3 price where l: "same_ledger ?w1 w3"
      and e: "snd (execute_dca_purchase g cfg ?w1)
             = record_purchase g cfg price (dca_amount cfg / price)
                 (snd (stake_sn73 g (dca_amount cfg) w3))"
      by blast
    have "same_ledger w3 (snd (stake_sn73 g (dca_amount cfg) w3))"
      by (rule quiet_stake_sn73 [of g "dca_amount cfg" w3 "fst (stake_sn73 g (dca_amount cfg) w3)"])
         simp
    then have "self (snd (stake_sn73 g (dca_amount cfg) w3)) = self w"
      using l s1 by (simp add: same_ledger_def)
    then show ?thesis using e by blast
  qed
  have gate: "snd (is_time_for_dca g cfg w) = ?w1"
    by (simp add: is_time_for_dca_def Let_def split: prod.splits)
  have wait: "same_ledger w (snd (get_time_until_next_dca g cfg ?w1))"
    by (simp add: get_time_until_next_dca_def read_clock_def same_ledger_def Let_def)
  have said: "same_ledger w (say n w')" if "same_ledger w w'" for n w'
    using that by (simp add: say_def same_ledger_def)
  show ?thesis
    using attempt gate said [OF wait] said [OF same_ledger_refl]
    by (cases "is_time_for_dca g cfg w")
       (auto simp: dca_phase_def split: prod.splits bool.splits)
qed

lemma opened_ids_cases:
  "(opened_ids g cfg w = [] \<and> self (dca_phase g cfg w) = self w)
   \<or> (opened_ids g cfg w = [position_counter (self w) + 1]
       \<and> position_counter (self (dca_phase g cfg w)) = position_counter (self w) + 1)"
  using dca_phase_cases [of w g cfg]
  by (auto simp: opened_ids_def same_ledger_def self_record_purchase new_position_def)

lemma position_counter_restart:
  assumes "durable w"
  shows "position_counter (self (restart g w)) = position_counter (self w)"
  using assms
  by (auto simp: restart_def read_clock_def load_state_def durable_def Let_def init_bot_def
      split: option.splits)

lemma durable_micro_grid_cycle: "durable w \<Longrightarrow> durable (micro_grid_cycle g cfg w)"
  using durable_run [of w g cfg "[Cycle]"] by simp

lemma ids_assigned_increase:
  assumes "durable w"
  shows "sorted_wrt (<) (ids_assigned g cfg es w)
    \<and> (\<forall>n\<in>set (ids_assigned g cfg es w). position_counter (self w) < n)"
  using assms
proof (induction es arbitrary: w)
  case Nil
  then show ?case by simp
next
  case (Cons e es)
  show ?case
  proof (cases e)
    case Cycle
    let ?w' = "micro_grid_cycle g cfg w"
    have IH: "sorted_wrt (<) (ids_assigned g cfg es ?w')"
      "\<forall>n\<in>set (ids_assigned g cfg es ?w'). position_counter (self ?w') < n"
      using Cons.IH [OF durable_micro_grid_cycle [OF Cons.prems]] by simp_all
    have c: "position_counter (self ?w') = position_counter (self (dca_phase g cfg w))"
      by (rule position_counter_micro_grid_cycle)
    from opened_ids_cases [of g cfg w] show ?thesis
    proof
      assume "opened_ids g cfg w = [] \<and> self (dca_phase g cfg w) = self w"
      then show ?thesis using IH c Cycle by simp
    next
      assume "opened_ids g cfg w = [position_counter (self w) + 1]
        \<and> position_counter (self (dca_phase g cfg w)) = position_counter (self w) + 1"
      then show ?thesis using IH c Cycle by (auto simp: sorted_wrt_append)
    qed
  next
    case Restart
    show ?thesis
      using Cons.IH [OF durable_restart [OF Cons.prems]] position_counter_restart [OF Cons.prems]
        Restart
      by simp
  qed
qed

lemma position_counter_run:
  assumes "durable w"
  shows "position_counter (self w) \<le> position_counter (self (run g cfg es w))"
  using assms
proof (induction es arbitrary: w)
  case Nil
  then show ?case by simp
next
  case (Cons e es)
  show ?case
  proof (cases e)
    case Cycle
    have "position_counter (self w) \<le> position_counter (self (micro_grid_cycle g cfg w))"
      using opened_ids_cases [of g cfg w] position_counter_micro_grid_cycle [of g cfg w]
      by auto
    then show ?thesis
      using Cons.IH [OF durable_micro_grid_cycle [OF Cons.prems, of g cfg]] Cycle by simp
  next
    case Restart
    show ?thesis
      using Cons.IH [OF durable_restart [OF Cons.prems]] position_counter_restart [OF Cons.prems]
        Restart
      by simp
  qed
qed

text \<open>
  Claim C9. Along every run of cycles and restarts, from a world whose state file agrees
  with the bot (the initial one does), the ids given to new positions are strictly
  increasing, so none is given twice, and each is greater than the position counter the
  run started with. A restart loads the counter back unchanged, and the counter never
  decreases.
\<close>

theorem position_ids_strictly_increase:
  assumes "durable w"
  shows "sorted_wrt (<) (ids_assigned g cfg es w)
    \<and> (\<forall>n\<in>set (ids_assigned g cfg es w). position_counter (self w) < n)
    \<and> position_counter (self (restart g w)) = position_counter (self w)
    \<and> position_counter (self w) \<le> position_counter (self (run g cfg es w))"
  using ids_assigned_increase [OF assms] position_counter_restart [OF assms]
    position_counter_run [OF assms]
  by simp

theorem position_ids_strictly_increase_witness:
  "durable (fresh_world 0)
   \<and> ids_assigned stepping_gateway narrow_config
        [Cycle, Cycle, Restart, Cycle, Cycle, Restart, Cycle] (fresh_world 0) = [1, 2, 3, 4]
   \<and> sorted_wrt (<)
        (ids_assigned stepping_gateway narrow_config
           [Cycle, Cycle, Restart, Cycle, Cycle, Restart, Cycle] (fresh_world 0))
   \<and> position_counter
        (self (restart stepping_gateway (run stepping_gateway narrow_config [Cycle, Cycle]
                                           (fresh_world 0)))) = 2"
proof -
  have ids: "ids_assigned stepping_gateway narrow_config
        [Cycle, Cycle, Restart, Cycle, Cycle, Restart, Cycle] (fresh_world 0) = [1, 2, 3, 4]"
    by (simp add: opened_ids_def restart_def load_state_def load_active_def load_trade_def
        gateway_calls bot_methods narrow_config_def stepping_gateway_def quoting_def)
  have two: "position_counter
      (self (run stepping_gateway narrow_config [Cycle, Cycle] (fresh_world 0))) = 2"
    by (simp add: gateway_calls bot_methods narrow_config_def stepping_gateway_def quoting_def)
  have d: "durable (fresh_world 0)" by (rule durable_fresh)
  have d2: "durable (run stepping_gateway narrow_config [Cycle, Cycle] (fresh_world 0))"
    using d by (rule durable_run)
  show ?thesis
    using d ids two
      position_ids_strictly_increase [OF d, of stepping_gateway narrow_config
        "[Cycle, Cycle, Restart, Cycle, Cycle, Restart, Cycle]"]
      position_ids_strictly_increase [OF d2, of stepping_gateway narrow_config "[]"]
    by simp
qed

end
